theory Spec2Isabelle
  imports Main "HOL-Library.Word"
begin

unbundle bit_operations_syntax

section \<open>Bytes, streams, values and errors\<close>

text \<open>
  The parser is written for Python 2 (\<open>xrange\<close>, \<open>str\<close> byte strings, integer \<open>/\<close>).
  A byte string is a list of bytes. The open file \<open>f\<close> (and every in-memory
  \<open>StringIO\<close>/\<open>BytesIO\<close> buffer) is modelled by the list of bytes not yet read; a
  reader returns its value together with the rest of the stream. An exception is the
  \<open>Inl\<close> branch of a sum. \<open>struct\<close> formats without a byte-order mark use the native
  layout, taken here to be little-endian with 2, 4 and 8 byte \<open>h\<close>, \<open>i\<close> and \<open>q\<close>.
\<close>

type_synonym byte = "8 word"
type_synonym stream = "byte list"

datatype error =
    StructError        \<comment> \<open>\<open>struct.error\<close>: the buffer handed to \<open>struct.unpack\<close> is short\<close>
  | IndexError         \<comment> \<open>index out of range on a \<open>bytearray\<close>\<close>
  | ValueError         \<comment> \<open>raised by \<open>int()\<close>, \<open>float()\<close>, \<open>utcfromtimestamp\<close>\<close>
  | TypeError          \<comment> \<open>\<open>len()\<close> of an integer or of \<open>None\<close>\<close>
  | KeyError           \<comment> \<open>\<open>DATA_TYPE_MAPPING[data_type]\<close> on an unknown tag\<close>
  | Raised string      \<comment> \<open>\<open>raise Exception(name, message)\<close>, identified by \<open>name\<close>\<close>

datatype val = VStr "byte list" | VInt int | VNone

text \<open>
  A sorted-set score handed to \<open>zadd\<close>: \<open>float(text)\<close> when the score read was a
  \<open>str\<close>, otherwise the value as it is.
\<close>

datatype score = SFloat "byte list" | SVal val

text \<open>
  Library functions that are not part of the repository are parameters: \<open>py_int s\<close> is
  \<open>int(s)\<close> (\<open>None\<close> when it raises \<open>ValueError\<close>), \<open>py_float s\<close> tells whether
  \<open>float(s)\<close> returns, \<open>py_utcfromtimestamp n\<close> whether
  \<open>datetime.utcfromtimestamp(n)\<close> returns.
\<close>

record pylib =
  py_int :: "byte list \<Rightarrow> int option"
  py_float :: "byte list \<Rightarrow> bool"
  py_utcfromtimestamp :: "nat \<Rightarrow> bool"

definition REDIS_RDB_6BITLEN :: nat where "REDIS_RDB_6BITLEN = 0"
definition REDIS_RDB_14BITLEN :: nat where "REDIS_RDB_14BITLEN = 1"
definition REDIS_RDB_32BITLEN :: nat where "REDIS_RDB_32BITLEN = 2"
definition REDIS_RDB_ENCVAL :: nat where "REDIS_RDB_ENCVAL = 3"

definition REDIS_RDB_ENC_INT8 :: nat where "REDIS_RDB_ENC_INT8 = 0"
definition REDIS_RDB_ENC_INT16 :: nat where "REDIS_RDB_ENC_INT16 = 1"
definition REDIS_RDB_ENC_INT32 :: nat where "REDIS_RDB_ENC_INT32 = 2"
definition REDIS_RDB_ENC_LZF :: nat where "REDIS_RDB_ENC_LZF = 3"

subsection \<open>Byte reader\<close>

text \<open>\<open>f.read(n)\<close>: at most \<open>n\<close> bytes; a short read at the end of the stream is not an error.\<close>

definition read :: "nat \<Rightarrow> stream \<Rightarrow> byte list \<times> stream" where
  "read n f = (take n f, drop n f)"

text \<open>\<open>struct.unpack(fmt, f.read(n))\<close> raises when fewer than \<open>n\<close> bytes came back.\<close>

definition unpack :: "nat \<Rightarrow> stream \<Rightarrow> error + (byte list \<times> stream)" where
  "unpack n f = (if length f < n then Inl StructError else Inr (read n f))"

fun le_nat :: "byte list \<Rightarrow> nat" where
  "le_nat [] = 0"
| "le_nat (b # bs) = unat b + 256 * le_nat bs"

fun be_nat :: "nat \<Rightarrow> byte list \<Rightarrow> nat" where
  "be_nat acc [] = acc"
| "be_nat acc (b # bs) = be_nat (256 * acc + unat b) bs"

definition to_signed :: "nat \<Rightarrow> nat \<Rightarrow> int" where
  "to_signed w u = (if 2 ^ (w - 1) \<le> u then int u - 2 ^ w else int u)"

definition read_signed_char :: "stream \<Rightarrow> error + (int \<times> stream)" where
  "read_signed_char f =
     (case unpack 1 f of Inl e \<Rightarrow> Inl e | Inr (bs, f') \<Rightarrow> Inr (to_signed 8 (le_nat bs), f'))"

definition read_unsigned_char :: "stream \<Rightarrow> error + (nat \<times> stream)" where
  "read_unsigned_char f =
     (case unpack 1 f of Inl e \<Rightarrow> Inl e | Inr (bs, f') \<Rightarrow> Inr (le_nat bs, f'))"

definition read_signed_short :: "stream \<Rightarrow> error + (int \<times> stream)" where
  "read_signed_short f =
     (case unpack 2 f of Inl e \<Rightarrow> Inl e | Inr (bs, f') \<Rightarrow> Inr (to_signed 16 (le_nat bs), f'))"

definition read_unsigned_short :: "stream \<Rightarrow> error + (nat \<times> stream)" where
  "read_unsigned_short f =
     (case unpack 2 f of Inl e \<Rightarrow> Inl e | Inr (bs, f') \<Rightarrow> Inr (le_nat bs, f'))"

definition read_signed_int :: "stream \<Rightarrow> error + (int \<times> stream)" where
  "read_signed_int f =
     (case unpack 4 f of Inl e \<Rightarrow> Inl e | Inr (bs, f') \<Rightarrow> Inr (to_signed 32 (le_nat bs), f'))"

definition read_unsigned_int :: "stream \<Rightarrow> error + (nat \<times> stream)" where
  "read_unsigned_int f =
     (case unpack 4 f of Inl e \<Rightarrow> Inl e | Inr (bs, f') \<Rightarrow> Inr (le_nat bs, f'))"

definition read_big_endian_unsigned_int :: "stream \<Rightarrow> error + (nat \<times> stream)" where
  "read_big_endian_unsigned_int f =
     (case unpack 4 f of Inl e \<Rightarrow> Inl e | Inr (bs, f') \<Rightarrow> Inr (be_nat 0 bs, f'))"

text \<open>\<open>s = '0' + f.read(3)\<close>, unpacked as a 4-byte signed integer, then \<open>num >> 8\<close>.\<close>

definition read_24bit_signed_number :: "stream \<Rightarrow> error + (int \<times> stream)" where
  "read_24bit_signed_number f =
     (case unpack 3 f of Inl e \<Rightarrow> Inl e
      | Inr (bs, f') \<Rightarrow> Inr (drop_bit 8 (to_signed 32 (le_nat (0x30 # bs))), f'))"

definition read_signed_long :: "stream \<Rightarrow> error + (int \<times> stream)" where
  "read_signed_long f =
     (case unpack 8 f of Inl e \<Rightarrow> Inl e | Inr (bs, f') \<Rightarrow> Inr (to_signed 64 (le_nat bs), f'))"

definition read_unsigned_long :: "stream \<Rightarrow> error + (nat \<times> stream)" where
  "read_unsigned_long f =
     (case unpack 8 f of Inl e \<Rightarrow> Inl e | Inr (bs, f') \<Rightarrow> Inr (le_nat bs, f'))"

text \<open>\<open>skip(f, free)\<close>: reads only when \<open>free\<close> is truthy.\<close>

definition skip :: "stream \<Rightarrow> nat \<Rightarrow> stream" where
  "skip f free = (if free \<noteq> 0 then snd (read free f) else f)"

definition ntohl :: "stream \<Rightarrow> error + (nat \<times> stream)" where
  "ntohl f =
     (case read_unsigned_int f of Inl e \<Rightarrow> Inl e
      | Inr (val, f') \<Rightarrow>
          (let new_val = 0;
               new_val = new_val OR push_bit 24 (val AND 0x000000ff);
               new_val = new_val OR drop_bit 24 (val AND 0xff000000);
               new_val = new_val OR push_bit 8 (val AND 0x0000ff00);
               new_val = new_val OR drop_bit 8 (val AND 0x00ff0000)
           in Inr (new_val, f')))"

subsection \<open>Length and string codec\<close>

definition read_length_with_encoding :: "stream \<Rightarrow> error + ((nat \<times> bool) \<times> stream)" where
  "read_length_with_encoding f =
     (case read_unsigned_char f of Inl e \<Rightarrow> Inl e
      | Inr (b0, f1) \<Rightarrow>
          (let enc_type = drop_bit 6 (b0 AND 0xC0) in
           if enc_type = REDIS_RDB_ENCVAL then Inr ((b0 AND 0x3F, True), f1)
           else if enc_type = REDIS_RDB_6BITLEN then Inr ((b0 AND 0x3F, False), f1)
           else if enc_type = REDIS_RDB_14BITLEN then
             (case read_unsigned_char f1 of Inl e \<Rightarrow> Inl e
              | Inr (b1, f2) \<Rightarrow> Inr ((push_bit 8 (b0 AND 0x3F) OR b1, False), f2))
           else
             (case ntohl f1 of Inl e \<Rightarrow> Inl e
              | Inr (len, f2) \<Rightarrow> Inr ((len, False), f2))))"

definition read_length :: "stream \<Rightarrow> error + (nat \<times> stream)" where
  "read_length f =
     (case read_length_with_encoding f of Inl e \<Rightarrow> Inl e
      | Inr ((len, is_encoded), f') \<Rightarrow> Inr (len, f'))"

subsection \<open>LZF decompression\<close>

text \<open>
  \<open>out_stream[ref]\<close> on a \<open>bytearray\<close>: a negative index counts from the end, and only an
  index outside \<open>[-len, len)\<close> raises.
\<close>

definition getitem :: "byte list \<Rightarrow> int \<Rightarrow> error + byte" where
  "getitem out ref =
     (if 0 \<le> ref \<and> ref < int (length out) then Inr (out ! nat ref)
      else if ref < 0 \<and> - int (length out) \<le> ref then Inr (out ! nat (ref + int (length out)))
      else Inl IndexError)"

text \<open>
  The input \<open>in_stream[in_index:]\<close> is the list of bytes from \<open>in_index\<close> on, so that
  \<open>in_stream[in_index]\<close> is its head and raises on the empty list. The two inner \<open>for\<close>
  loops run \<open>ctrl + 1\<close> and \<open>length + 2\<close> times.
\<close>

fun copy_literal ::
  "nat \<Rightarrow> byte list \<Rightarrow> byte list \<Rightarrow> int \<Rightarrow> error + (byte list \<times> byte list \<times> int)" where
  "copy_literal 0 inp out out_index = Inr (inp, out, out_index)"
| "copy_literal (Suc n) inp out out_index =
     (case inp of [] \<Rightarrow> Inl IndexError
      | b # inp' \<Rightarrow> copy_literal n inp' (out @ [b]) (out_index + 1))"

fun copy_backref :: "nat \<Rightarrow> int \<Rightarrow> byte list \<Rightarrow> int \<Rightarrow> error + (byte list \<times> int)" where
  "copy_backref 0 ref out out_index = Inr (out, out_index)"
| "copy_backref (Suc n) ref out out_index =
     (case getitem out ref of Inl e \<Rightarrow> Inl e
      | Inr b \<Rightarrow> copy_backref n (ref + 1) (out @ [b]) (out_index + 1))"

lemma copy_literal_length:
  "copy_literal n inp out oi = Inr (inp', out', oi') \<Longrightarrow> length inp' \<le> length inp"
proof (induction n arbitrary: inp out oi)
  case 0
  then show ?case by simp
next
  case (Suc n)
  then show ?case by (cases inp) (auto dest: Suc.IH)
qed

function lzf_loop :: "byte list \<Rightarrow> byte list \<Rightarrow> int \<Rightarrow> error + byte list" where
  "lzf_loop inp out out_index =
     (case inp of [] \<Rightarrow> Inr out
      | c # inp1 \<Rightarrow>
          (let ctrl = unat c in
           if ctrl < 32 then
             (case copy_literal (ctrl + 1) inp1 out out_index of Inl e \<Rightarrow> Inl e
              | Inr (inp2, out2, out_index2) \<Rightarrow> lzf_loop inp2 out2 out_index2)
           else
             (let len = drop_bit 5 ctrl in
              case (if len = 7
                    then (case inp1 of [] \<Rightarrow> Inl IndexError
                          | b # inp2 \<Rightarrow> Inr (len + unat b, inp2))
                    else Inr (len, inp1)) of Inl e \<Rightarrow> Inl e
              | Inr (len, inp2) \<Rightarrow>
                  (case inp2 of [] \<Rightarrow> Inl IndexError
                   | b2 # inp3 \<Rightarrow>
                       (let ref = out_index - int (push_bit 8 (ctrl AND 0x1f)) - int (unat b2) - 1 in
                        case copy_backref (len + 2) ref out out_index of Inl e \<Rightarrow> Inl e
                        | Inr (out2, out_index2) \<Rightarrow> lzf_loop inp3 out2 out_index2)))))"
  by pat_completeness auto
termination
proof (relation "measure (\<lambda>(inp, out, oi). length inp)")
  show "wf (measure (\<lambda>(inp, out, oi). length inp))" by simp
next
  fix inp :: "byte list" and out oi c inp1 ctrl x2 inp2 y out2 oi2
  assume "inp = c # inp1" "copy_literal (ctrl + 1) inp1 out oi = Inr x2"
    "(inp2, y) = x2" "(out2, oi2) = y"
  then show "((inp2, out2, oi2), inp, out, oi) \<in> measure (\<lambda>(inp, out, oi). length inp)"
    using copy_literal_length [of "ctrl + 1" inp1 out oi inp2 out2 oi2] by auto
next
  fix inp :: "byte list" and out :: "byte list" and oi :: int and c inp1 ctrl len x2 len' inp2 b2 inp3
    and ref :: int and x2a out2 oi2
  assume "inp = c # inp1"
    "(if len = 7 then case inp1 of [] \<Rightarrow> Inl IndexError | b # inp2 \<Rightarrow> Inr (len + unat b, inp2)
      else Inr (len, inp1)) = Inr x2"
    "(len', inp2) = x2" "inp2 = b2 # inp3"
  then show "((inp3, out2, oi2), inp, out, oi) \<in> measure (\<lambda>(inp, out, oi). length inp)"
    by (auto split: if_splits list.splits)
qed

declare lzf_loop.simps [simp del]

text \<open>
  \<open>Exception('lzf_decompress', ...)\<close> is the length mismatch the specification calls
  \<open>CorruptLzf\<close>. The \<open>isinstance(ctrl, int)\<close> test never fails on a \<open>bytearray\<close>.
\<close>

definition CorruptLzf :: error where
  "CorruptLzf = Raised ''lzf_decompress''"

definition lzf_decompress :: "byte list \<Rightarrow> nat \<Rightarrow> error + byte list" where
  "lzf_decompress compressed expected_length =
     (case lzf_loop compressed [] 0 of Inl e \<Rightarrow> Inl e
      | Inr out_stream \<Rightarrow>
          if length out_stream \<noteq> expected_length then Inl CorruptLzf else Inr out_stream)"

subsection \<open>Strings\<close>

definition read_string :: "stream \<Rightarrow> error + (val \<times> stream)" where
  "read_string f =
     (case read_length_with_encoding f of Inl e \<Rightarrow> Inl e
      | Inr ((len, is_encoded), f1) \<Rightarrow>
          if is_encoded then
            if len = REDIS_RDB_ENC_INT8 then
              (case read_signed_char f1 of Inl e \<Rightarrow> Inl e | Inr (v, f2) \<Rightarrow> Inr (VInt v, f2))
            else if len = REDIS_RDB_ENC_INT16 then
              (case read_signed_short f1 of Inl e \<Rightarrow> Inl e | Inr (v, f2) \<Rightarrow> Inr (VInt v, f2))
            else if len = REDIS_RDB_ENC_INT32 then
              (case read_signed_int f1 of Inl e \<Rightarrow> Inl e | Inr (v, f2) \<Rightarrow> Inr (VInt v, f2))
            else if len = REDIS_RDB_ENC_LZF then
              (case read_length f1 of Inl e \<Rightarrow> Inl e
               | Inr (clen, f2) \<Rightarrow>
                   (case read_length f2 of Inl e \<Rightarrow> Inl e
                    | Inr (l, f3) \<Rightarrow>
                        (case read clen f3 of (compressed, f4) \<Rightarrow>
                           (case lzf_decompress compressed l of Inl e \<Rightarrow> Inl e
                            | Inr s \<Rightarrow> Inr (VStr s, f4)))))
            else Inr (VNone, f1)
          else (case read len f1 of (s, f2) \<Rightarrow> Inr (VStr s, f2)))"

definition skip_string :: "stream \<Rightarrow> error + stream" where
  "skip_string f =
     (case read_length_with_encoding f of Inl e \<Rightarrow> Inl e
      | Inr ((len, is_encoded), f1) \<Rightarrow>
          (case (if is_encoded then
                   if len = REDIS_RDB_ENC_INT8 then Inr (1, f1)
                   else if len = REDIS_RDB_ENC_INT16 then Inr (2, f1)
                   else if len = REDIS_RDB_ENC_INT32 then Inr (4, f1)
                   else if len = REDIS_RDB_ENC_LZF then
                     (case read_length f1 of Inl e \<Rightarrow> Inl e
                      | Inr (clen, f2) \<Rightarrow>
                          (case read_length f2 of Inl e \<Rightarrow> Inl e
                           | Inr (l, f3) \<Rightarrow> Inr (clen, f3)))
                   else Inr (0, f1)
                 else Inr (len, f1)) of Inl e \<Rightarrow> Inl e
           | Inr (bytes_to_skip, f2) \<Rightarrow> Inr (skip f2 bytes_to_skip)))"

subsection \<open>Events, filters and parser state\<close>

text \<open>
  A callback invocation is an event; the trace of a run is the list of events in call order.
  \<open>info\<close> is the pair of \<open>encoding\<close> and the optional \<open>sizeof_value\<close>. An expiry is
  the number of microseconds since the epoch that \<open>to_datetime\<close> turned into a
  \<open>datetime\<close>.
\<close>

type_synonym info = "string \<times> nat option"
type_synonym expiry = "nat option"

datatype event =
    Start_rdb
  | Start_database nat
  | Set_value val val expiry info
  | Start_hash val nat expiry info | Hset val val val | End_hash val
  | Start_set val nat expiry info | Sadd val val | End_set val
  | Start_list val nat expiry info | Rpush val val | End_list val
  | Start_sorted_set val nat expiry info | Zadd val score val | End_sorted_set val
  | End_database nat
  | End_rdb

text \<open>
  A compiled regular expression. \<open>re\<close> is a library; its pattern syntax is not modelled,
  a pattern is given by its syntax tree. \<open>Dot\<close> is \<open>.\<close>, any byte but a newline.
\<close>

datatype regex = Fail | Eps | Lit byte | Dot | Seq regex regex | Alt regex regex | Star regex

fun nullable :: "regex \<Rightarrow> bool" where
  "nullable Fail = False"
| "nullable Eps = True"
| "nullable (Lit c) = False"
| "nullable Dot = False"
| "nullable (Seq r s) = (nullable r \<and> nullable s)"
| "nullable (Alt r s) = (nullable r \<or> nullable s)"
| "nullable (Star r) = True"

fun deriv :: "byte \<Rightarrow> regex \<Rightarrow> regex" where
  "deriv c Fail = Fail"
| "deriv c Eps = Fail"
| "deriv c (Lit d) = (if c = d then Eps else Fail)"
| "deriv c Dot = (if c = 0x0A then Fail else Eps)"
| "deriv c (Seq r s) =
     (if nullable r then Alt (Seq (deriv c r) s) (deriv c s) else Seq (deriv c r) s)"
| "deriv c (Alt r s) = Alt (deriv c r) (deriv c s)"
| "deriv c (Star r) = Seq (deriv c r) (Star r)"

text \<open>
  \<open>pattern.match(s)\<close> finds a match that starts at the first byte of \<open>s\<close> and may end
  anywhere; \<open>re_match r s\<close> tells whether it is not \<open>None\<close>. \<open>re_search\<close> is
  \<open>pattern.search(s)\<close>: a match that starts at any position.
\<close>

fun re_match :: "regex \<Rightarrow> byte list \<Rightarrow> bool" where
  "re_match r [] = nullable r"
| "re_match r (c # cs) = (nullable r \<or> re_match (deriv c r) cs)"

fun re_search :: "regex \<Rightarrow> byte list \<Rightarrow> bool" where
  "re_search r [] = re_match r []"
| "re_search r (c # cs) = (re_match r (c # cs) \<or> re_search r cs)"

record filters =
  f_dbs :: "int list option"
  f_keys :: regex
  f_types :: "string list"

record parser =
  p_key :: val
  p_expiry :: expiry
  p_filters :: filters

text \<open>The argument of \<open>init_filter\<close>: a dictionary whose entries may be absent.\<close>

datatype dbs_arg = Dbs_int int | Dbs_list "int list" | Dbs_other
datatype types_arg = Types_str string | Types_list "string list" | Types_other

record raw_filters =
  r_dbs :: "dbs_arg option"
  r_keys :: "regex option"    \<comment> \<open>\<open>None\<close>: no \<open>keys\<close> entry, or a falsy one\<close>
  r_types :: "types_arg option"

definition init_filter :: "raw_filters option \<Rightarrow> error + filters" where
  "init_filter fs =
     (let fs = (case fs of None \<Rightarrow> \<lparr>r_dbs = None, r_keys = None, r_types = None\<rparr> | Some d \<Rightarrow> d) in
      case (case r_dbs fs of None \<Rightarrow> Inr None
            | Some (Dbs_int n) \<Rightarrow> Inr (Some [n])
            | Some (Dbs_list ns) \<Rightarrow> Inr (Some ns)
            | Some Dbs_other \<Rightarrow> Inl (Raised ''init_filter'')) of Inl e \<Rightarrow> Inl e
      | Inr dbs \<Rightarrow>
          (let keys = (case r_keys fs of None \<Rightarrow> Star Dot | Some r \<Rightarrow> r) in
           case (case r_types fs of
                   None \<Rightarrow> Inr [''set'', ''hash'', ''sortedset'', ''string'', ''list'']
                 | Some (Types_str t) \<Rightarrow> Inr [t]
                 | Some (Types_list ts) \<Rightarrow> Inr ts
                 | Some Types_other \<Rightarrow> Inl (Raised ''init_filter'')) of Inl e \<Rightarrow> Inl e
           | Inr types \<Rightarrow> Inr \<lparr>f_dbs = dbs, f_keys = keys, f_types = types\<rparr>))"

text \<open>\<open>DATA_TYPE_MAPPING[data_type]\<close>.\<close>

definition get_logical_type :: "nat \<Rightarrow> error + string" where
  "get_logical_type data_type =
     (if data_type = 0 then Inr ''string''
      else if data_type = 1 \<or> data_type = 10 then Inr ''list''
      else if data_type = 2 \<or> data_type = 11 then Inr ''set''
      else if data_type = 3 \<or> data_type = 12 then Inr ''sortedset''
      else if data_type = 4 \<or> data_type = 9 \<or> data_type = 13 then Inr ''hash''
      else Inl KeyError)"

text \<open>\<open>str(n)\<close> of an integer, as ASCII bytes.\<close>

fun digits :: "nat \<Rightarrow> byte list" where
  "digits n = (if n < 10 then [of_nat (48 + n)] else digits (n div 10) @ [of_nat (48 + n mod 10)])"

declare digits.simps [simp del]

definition py_str :: "val \<Rightarrow> byte list" where
  "py_str v =
     (case v of VStr s \<Rightarrow> s
      | VInt n \<Rightarrow> (if n < 0 then 0x2D # digits (nat (- n)) else digits (nat n))
      | VNone \<Rightarrow> [0x4E, 0x6F, 0x6E, 0x65])"

text \<open>Truth value of a key: \<open>None\<close>, \<open>0\<close> and the empty string are falsy.\<close>

definition truthy :: "val \<Rightarrow> bool" where
  "truthy v = (case v of VStr s \<Rightarrow> s \<noteq> [] | VInt n \<Rightarrow> n \<noteq> 0 | VNone \<Rightarrow> False)"

text \<open>
  \<open>matches_filter(db_number, key=None, data_type=None)\<close>; an absent \<open>key\<close> is \<open>VNone\<close>.
\<close>

definition matches_filter :: "parser \<Rightarrow> nat \<Rightarrow> val \<Rightarrow> nat option \<Rightarrow> error + bool" where
  "matches_filter self db_number key data_type =
     (if (case f_dbs (p_filters self) of None \<Rightarrow> False
          | Some dbs \<Rightarrow> dbs \<noteq> [] \<and> \<not> int db_number \<in> set dbs) then Inr False
      else if truthy key \<and> \<not> re_match (f_keys (p_filters self)) (py_str key) then Inr False
      else
        (case data_type of None \<Rightarrow> Inr True
         | Some dt \<Rightarrow>
             (case get_logical_type dt of Inl e \<Rightarrow> Inl e
              | Inr t \<Rightarrow> if \<not> t \<in> set (f_types (p_filters self)) then Inr False else Inr True)))"

subsection \<open>Packed containers\<close>

definition REDIS_RDB_OPCODE_EXPIRETIME_MS :: nat where "REDIS_RDB_OPCODE_EXPIRETIME_MS = 252"
definition REDIS_RDB_OPCODE_EXPIRETIME :: nat where "REDIS_RDB_OPCODE_EXPIRETIME = 253"
definition REDIS_RDB_OPCODE_SELECTDB :: nat where "REDIS_RDB_OPCODE_SELECTDB = 254"
definition REDIS_RDB_OPCODE_EOF :: nat where "REDIS_RDB_OPCODE_EOF = 255"

definition REDIS_RDB_TYPE_STRING :: nat where "REDIS_RDB_TYPE_STRING = 0"
definition REDIS_RDB_TYPE_LIST :: nat where "REDIS_RDB_TYPE_LIST = 1"
definition REDIS_RDB_TYPE_SET :: nat where "REDIS_RDB_TYPE_SET = 2"
definition REDIS_RDB_TYPE_ZSET :: nat where "REDIS_RDB_TYPE_ZSET = 3"
definition REDIS_RDB_TYPE_HASH :: nat where "REDIS_RDB_TYPE_HASH = 4"
definition REDIS_RDB_TYPE_HASH_ZIPMAP :: nat where "REDIS_RDB_TYPE_HASH_ZIPMAP = 9"
definition REDIS_RDB_TYPE_LIST_ZIPLIST :: nat where "REDIS_RDB_TYPE_LIST_ZIPLIST = 10"
definition REDIS_RDB_TYPE_SET_INTSET :: nat where "REDIS_RDB_TYPE_SET_INTSET = 11"
definition REDIS_RDB_TYPE_ZSET_ZIPLIST :: nat where "REDIS_RDB_TYPE_ZSET_ZIPLIST = 12"
definition REDIS_RDB_TYPE_HASH_ZIPLIST :: nat where "REDIS_RDB_TYPE_HASH_ZIPLIST = 13"

text \<open>
  A reader that calls back returns the events it sent, in order, and then either the
  exception that stopped it or the rest of the stream: events sent before an exception
  stay sent. \<open>emit evs r\<close> puts the events \<open>evs\<close>, sent first, in front of those of \<open>r\<close>.
\<close>

type_synonym 'a run = "event list \<times> (error + 'a)"

definition emit :: "event list \<Rightarrow> 'a run \<Rightarrow> 'a run" where
  "emit evs r = (evs @ fst r, snd r)"

text \<open>The same run, with the value it returns changed by \<open>g\<close>.\<close>

definition map_run :: "('a \<Rightarrow> 'b) \<Rightarrow> 'a run \<Rightarrow> 'b run" where
  "map_run g r = (fst r, case snd r of Inl e \<Rightarrow> Inl e | Inr x \<Rightarrow> Inr (g x))"

text \<open>
  \<open>StringIO(raw_string)\<close> (module \<open>StringIO\<close> of Python 2) holds \<open>str(raw_string)\<close> when
  \<open>raw_string\<close> is not a string; \<open>len(raw_string)\<close> raises on an integer and on \<open>None\<close>.
\<close>

definition stringio :: "val \<Rightarrow> stream" where
  "stringio raw_string = py_str raw_string"

definition py_len :: "val \<Rightarrow> error + nat" where
  "py_len raw_string = (case raw_string of VStr s \<Rightarrow> Inr (length s) | _ \<Rightarrow> Inl TypeError)"

text \<open>
  \<open>io.BytesIO(bytearray(raw_string))\<close>: \<open>bytearray(n)\<close> of an integer is \<open>n\<close> zero bytes
  and raises \<open>ValueError\<close> on a negative one; \<open>bytearray(None)\<close> raises \<open>TypeError\<close>.
\<close>

definition bytesio :: "val \<Rightarrow> error + stream" where
  "bytesio raw_string =
     (case raw_string of VStr s \<Rightarrow> Inr s
      | VInt n \<Rightarrow> if n < 0 then Inl ValueError else Inr (replicate (nat n) 0)
      | VNone \<Rightarrow> Inl TypeError)"

definition to_score :: "pylib \<Rightarrow> val \<Rightarrow> error + score" where
  "to_score py sc =
     (case sc of VStr s \<Rightarrow> if py_float py s then Inr (SFloat s) else Inl ValueError
      | _ \<Rightarrow> Inr (SVal sc))"

text \<open>
  The closing callback \<open>ev\<close> after a loop \<open>r\<close> that ran to its end. \<open>then_end\<close> goes on
  in the stream the loop read from; \<open>then_end_at\<close> is for a loop over an in-memory buffer,
  after which the file goes on at \<open>f1\<close>, right after the packed string.
\<close>

definition then_end :: "event \<Rightarrow> stream run \<Rightarrow> stream run" where
  "then_end ev r = (case r of (evs, Inl e) \<Rightarrow> (evs, Inl e) | (evs, Inr f) \<Rightarrow> (evs @ [ev], Inr f))"

definition then_end_at :: "event \<Rightarrow> stream \<Rightarrow> stream run \<Rightarrow> stream run" where
  "then_end_at ev f1 r =
     (case r of (evs, Inl e) \<Rightarrow> (evs, Inl e) | (evs, Inr buff) \<Rightarrow> (evs @ [ev], Inr f1))"

fun intset_entries :: "val \<Rightarrow> nat \<Rightarrow> nat \<Rightarrow> stream \<Rightarrow> stream run" where
  "intset_entries k encoding 0 buff = ([], Inr buff)"
| "intset_entries k encoding (Suc n) buff =
     (case (if encoding = 8 then read_unsigned_long buff
            else if encoding = 4 then read_unsigned_int buff
            else if encoding = 2 then read_unsigned_short buff
            else Inl (Raised ''read_intset'')) of Inl e \<Rightarrow> ([], Inl e)
      | Inr (entry, buff1) \<Rightarrow>
          emit [Sadd k (VInt (int entry))] (intset_entries k encoding n buff1))"

definition read_intset :: "parser \<Rightarrow> stream \<Rightarrow> stream run" where
  "read_intset self f =
     (case read_string f of Inl e \<Rightarrow> ([], Inl e)
      | Inr (raw_string, f1) \<Rightarrow>
     (case read_unsigned_int (stringio raw_string) of Inl e \<Rightarrow> ([], Inl e)
      | Inr (encoding, buff1) \<Rightarrow>
     (case read_unsigned_int buff1 of Inl e \<Rightarrow> ([], Inl e)
      | Inr (num_entries, buff2) \<Rightarrow>
     (case py_len raw_string of Inl e \<Rightarrow> ([], Inl e)
      | Inr sizeof_value \<Rightarrow>
          emit [Start_set (p_key self) num_entries (p_expiry self) (''intset'', Some sizeof_value)]
            (then_end_at (End_set (p_key self)) f1
               (intset_entries (p_key self) encoding num_entries buff2))))))"

definition int_val :: "error + (int \<times> stream) \<Rightarrow> error + (val \<times> stream)" where
  "int_val r = (case r of Inl e \<Rightarrow> Inl e | Inr (v, f) \<Rightarrow> Inr (VInt v, f))"

definition read_ziplist_entry :: "stream \<Rightarrow> error + (val \<times> stream)" where
  "read_ziplist_entry f =
     (case read_unsigned_char f of Inl e \<Rightarrow> Inl e
      | Inr (prev_length, f1) \<Rightarrow>
     (case (if prev_length = 254
            then (case read_unsigned_int f1 of Inl e \<Rightarrow> Inl e | Inr (prev_length, f2) \<Rightarrow> Inr f2)
            else Inr f1) of Inl e \<Rightarrow> Inl e
      | Inr f2 \<Rightarrow>
     (case read_unsigned_char f2 of Inl e \<Rightarrow> Inl e
      | Inr (entry_header, f3) \<Rightarrow>
          if drop_bit 6 entry_header = 0 then
            (case read (entry_header AND 0x3F) f3 of (v, f4) \<Rightarrow> Inr (VStr v, f4))
          else if drop_bit 6 entry_header = 1 then
            (case read_unsigned_char f3 of Inl e \<Rightarrow> Inl e
             | Inr (b, f4) \<Rightarrow>
                 (case read (push_bit 8 (entry_header AND 0x3F) OR b) f4 of
                    (v, f5) \<Rightarrow> Inr (VStr v, f5)))
          else if drop_bit 6 entry_header = 2 then
            (case read_big_endian_unsigned_int f3 of Inl e \<Rightarrow> Inl e
             | Inr (len, f4) \<Rightarrow> (case read len f4 of (v, f5) \<Rightarrow> Inr (VStr v, f5)))
          else if drop_bit 4 entry_header = 12 then int_val (read_signed_short f3)
          else if drop_bit 4 entry_header = 13 then int_val (read_signed_int f3)
          else if drop_bit 4 entry_header = 14 then int_val (read_signed_long f3)
          else if entry_header = 240 then int_val (read_24bit_signed_number f3)
          else if entry_header = 254 then int_val (read_signed_char f3)
          else if entry_header \<ge> 241 \<and> entry_header \<le> 253
            then Inr (VInt (int entry_header - 241), f3)
          else Inl (Raised ''read_ziplist_entry''))))"

fun ziplist_entries :: "val \<Rightarrow> nat \<Rightarrow> stream \<Rightarrow> stream run" where
  "ziplist_entries k 0 buff = ([], Inr buff)"
| "ziplist_entries k (Suc n) buff =
     (case read_ziplist_entry buff of Inl e \<Rightarrow> ([], Inl e)
      | Inr (v, buff1) \<Rightarrow> emit [Rpush k v] (ziplist_entries k n buff1))"

fun zset_ziplist_entries :: "pylib \<Rightarrow> val \<Rightarrow> nat \<Rightarrow> stream \<Rightarrow> stream run" where
  "zset_ziplist_entries py k 0 buff = ([], Inr buff)"
| "zset_ziplist_entries py k (Suc n) buff =
     (case read_ziplist_entry buff of Inl e \<Rightarrow> ([], Inl e)
      | Inr (member, buff1) \<Rightarrow>
     (case read_ziplist_entry buff1 of Inl e \<Rightarrow> ([], Inl e)
      | Inr (sc, buff2) \<Rightarrow>
     (case to_score py sc of Inl e \<Rightarrow> ([], Inl e)
      | Inr sc' \<Rightarrow> emit [Zadd k sc' member] (zset_ziplist_entries py k n buff2))))"

fun hash_ziplist_entries :: "val \<Rightarrow> nat \<Rightarrow> stream \<Rightarrow> stream run" where
  "hash_ziplist_entries k 0 buff = ([], Inr buff)"
| "hash_ziplist_entries k (Suc n) buff =
     (case read_ziplist_entry buff of Inl e \<Rightarrow> ([], Inl e)
      | Inr (field, buff1) \<Rightarrow>
     (case read_ziplist_entry buff1 of Inl e \<Rightarrow> ([], Inl e)
      | Inr (v, buff2) \<Rightarrow> emit [Hset k field v] (hash_ziplist_entries k n buff2)))"

text \<open>
  The end of the three ziplist readers: the entries were read by \<open>r\<close>; then the
  terminator byte is checked and the closing callback \<open>ev\<close> is sent. \<open>f1\<close> is the file
  after the packed string.
\<close>

definition ziplist_end :: "string \<Rightarrow> event \<Rightarrow> stream \<Rightarrow> stream run \<Rightarrow> stream run" where
  "ziplist_end name ev f1 r =
     (case r of (evs, Inl e) \<Rightarrow> (evs, Inl e)
      | (evs, Inr buff) \<Rightarrow>
          emit evs
            (case read_unsigned_char buff of Inl e \<Rightarrow> ([], Inl e)
             | Inr (zlist_end, buff') \<Rightarrow>
                 if zlist_end \<noteq> 255 then ([], Inl (Raised name)) else ([ev], Inr f1)))"

text \<open>The header all three read: \<open>zlbytes\<close>, \<open>tail_offset\<close>, \<open>num_entries\<close>.\<close>

definition ziplist_header :: "stream \<Rightarrow> error + (nat \<times> stream)" where
  "ziplist_header buff =
     (case read_unsigned_int buff of Inl e \<Rightarrow> Inl e
      | Inr (zlbytes, buff1) \<Rightarrow>
     (case read_unsigned_int buff1 of Inl e \<Rightarrow> Inl e
      | Inr (tail_offset, buff2) \<Rightarrow> read_unsigned_short buff2))"

definition read_ziplist :: "parser \<Rightarrow> stream \<Rightarrow> stream run" where
  "read_ziplist self f =
     (case read_string f of Inl e \<Rightarrow> ([], Inl e)
      | Inr (raw_string, f1) \<Rightarrow>
     (case ziplist_header (stringio raw_string) of Inl e \<Rightarrow> ([], Inl e)
      | Inr (num_entries, buff) \<Rightarrow>
     (case py_len raw_string of Inl e \<Rightarrow> ([], Inl e)
      | Inr sizeof_value \<Rightarrow>
          emit [Start_list (p_key self) num_entries (p_expiry self) (''ziplist'', Some sizeof_value)]
            (ziplist_end ''read_ziplist'' (End_list (p_key self)) f1
               (ziplist_entries (p_key self) num_entries buff)))))"

definition read_zset_from_ziplist :: "pylib \<Rightarrow> parser \<Rightarrow> stream \<Rightarrow> stream run" where
  "read_zset_from_ziplist py self f =
     (case read_string f of Inl e \<Rightarrow> ([], Inl e)
      | Inr (raw_string, f1) \<Rightarrow>
     (case ziplist_header (stringio raw_string) of Inl e \<Rightarrow> ([], Inl e)
      | Inr (num_entries, buff) \<Rightarrow>
          if num_entries mod 2 \<noteq> 0 then ([], Inl (Raised ''read_zset_from_ziplist''))
          else
            (let num_entries = num_entries div 2 in
             case py_len raw_string of Inl e \<Rightarrow> ([], Inl e)
             | Inr sizeof_value \<Rightarrow>
                 emit [Start_sorted_set (p_key self) num_entries (p_expiry self)
                         (''ziplist'', Some sizeof_value)]
                   (ziplist_end ''read_zset_from_ziplist'' (End_sorted_set (p_key self)) f1
                      (zset_ziplist_entries py (p_key self) num_entries buff)))))"

definition read_hash_from_ziplist :: "parser \<Rightarrow> stream \<Rightarrow> stream run" where
  "read_hash_from_ziplist self f =
     (case read_string f of Inl e \<Rightarrow> ([], Inl e)
      | Inr (raw_string, f1) \<Rightarrow>
     (case ziplist_header (stringio raw_string) of Inl e \<Rightarrow> ([], Inl e)
      | Inr (num_entries, buff) \<Rightarrow>
          if num_entries mod 2 \<noteq> 0 then ([], Inl (Raised ''read_hash_from_ziplist''))
          else
            (let num_entries = num_entries div 2 in
             case py_len raw_string of Inl e \<Rightarrow> ([], Inl e)
             | Inr sizeof_value \<Rightarrow>
                 emit [Start_hash (p_key self) num_entries (p_expiry self)
                         (''ziplist'', Some sizeof_value)]
                   (ziplist_end ''read_hash_from_ziplist'' (End_hash (p_key self)) f1
                      (hash_ziplist_entries (p_key self) num_entries buff)))))"

subsection \<open>Stream length after a read\<close>

text \<open>No reader puts bytes back; reading one byte shortens the stream.\<close>

lemma unpack_length:
  "unpack n f = Inr (bs, f') \<Longrightarrow> length f' + n = length f"
  by (auto simp: unpack_def read_def split: if_splits)

lemma read_length_le: "read n f = (bs, f') \<Longrightarrow> length f' \<le> length f"
  by (auto simp: read_def)

lemma skip_length_le: "length (skip f n) \<le> length f"
  by (simp add: skip_def read_def)

lemma read_unsigned_char_length:
  "read_unsigned_char f = Inr (v, f') \<Longrightarrow> length f' < length f"
  by (auto simp: read_unsigned_char_def dest!: unpack_length split: sum.splits)

lemma read_fixed_length:
  "read_signed_char f = Inr (i, f') \<Longrightarrow> length f' \<le> length f"
  "read_signed_short f = Inr (i, f') \<Longrightarrow> length f' \<le> length f"
  "read_unsigned_short f = Inr (v, f') \<Longrightarrow> length f' \<le> length f"
  "read_signed_int f = Inr (i, f') \<Longrightarrow> length f' \<le> length f"
  "read_unsigned_int f = Inr (v, f') \<Longrightarrow> length f' \<le> length f"
  "read_big_endian_unsigned_int f = Inr (v, f') \<Longrightarrow> length f' \<le> length f"
  "read_24bit_signed_number f = Inr (i, f') \<Longrightarrow> length f' \<le> length f"
  "read_signed_long f = Inr (i, f') \<Longrightarrow> length f' \<le> length f"
  "read_unsigned_long f = Inr (v, f') \<Longrightarrow> length f' \<le> length f"
  by (auto simp: read_signed_char_def read_signed_short_def read_unsigned_short_def
      read_signed_int_def read_unsigned_int_def read_big_endian_unsigned_int_def
      read_24bit_signed_number_def read_signed_long_def read_unsigned_long_def
      dest!: unpack_length split: sum.splits)

lemma ntohl_length: "ntohl f = Inr (v, f') \<Longrightarrow> length f' \<le> length f"
  by (auto simp: ntohl_def Let_def dest: read_fixed_length split: sum.splits)

lemma read_length_with_encoding_length:
  "read_length_with_encoding f = Inr (r, f') \<Longrightarrow> length f' < length f"
  by (fastforce simp: read_length_with_encoding_def Let_def
      dest: read_unsigned_char_length ntohl_length split: sum.splits if_splits)

lemma read_length_length: "read_length f = Inr (n, f') \<Longrightarrow> length f' < length f"
  by (auto simp: read_length_def dest: read_length_with_encoding_length split: sum.splits)

lemma read_string_length: "read_string f = Inr (v, f') \<Longrightarrow> length f' < length f"
  by (fastforce simp: read_string_def read_def
      dest: read_length_with_encoding_length read_length_length read_fixed_length
      split: sum.splits if_splits prod.splits)

lemma skip_string_length: "skip_string f = Inr f' \<Longrightarrow> length f' < length f"
  using skip_length_le
  by (fastforce simp: read_string_def skip_string_def
      dest: read_length_with_encoding_length read_length_length
      split: sum.splits if_splits prod.splits intro: le_less_trans)

subsection \<open>Zipmap\<close>

definition read_zipmap_next_length :: "stream \<Rightarrow> error + (nat option \<times> stream)" where
  "read_zipmap_next_length f =
     (case read_unsigned_char f of Inl e \<Rightarrow> Inl e
      | Inr (num, f1) \<Rightarrow>
          if num < 254 then Inr (Some num, f1)
          else if num = 254 then
            (case read_unsigned_int f1 of Inl e \<Rightarrow> Inl e | Inr (n, f2) \<Rightarrow> Inr (Some n, f2))
          else Inr (None, f1))"

lemma read_zipmap_next_length_length:
  "read_zipmap_next_length f = Inr (r, f') \<Longrightarrow> length f' < length f"
  by (fastforce simp: read_zipmap_next_length_def
      dest: read_unsigned_char_length read_fixed_length split: sum.splits if_splits)

text \<open>
  The \<open>while True\<close> loop of \<open>read_zipmap\<close>. \<open>int(value)\<close> is tried on every value; when
  it raises, the value stays a string.
\<close>

function zipmap_entries :: "pylib \<Rightarrow> val \<Rightarrow> stream \<Rightarrow> stream run" where
  "zipmap_entries py k buff =
     (case read_zipmap_next_length buff of Inl e \<Rightarrow> ([], Inl e)
      | Inr (None, buff1) \<Rightarrow> ([], Inr buff1)
      | Inr (Some next_length, buff1) \<Rightarrow>
     (case read next_length buff1 of (field, buff2) \<Rightarrow>
     (case read_zipmap_next_length buff2 of Inl e \<Rightarrow> ([], Inl e)
      | Inr (None, buff3) \<Rightarrow> ([], Inl (Raised ''read_zip_map''))
      | Inr (Some next_length, buff3) \<Rightarrow>
     (case read_unsigned_char buff3 of Inl e \<Rightarrow> ([], Inl e)
      | Inr (free, buff4) \<Rightarrow>
     (case read next_length buff4 of (v, buff5) \<Rightarrow>
        emit [Hset k (VStr field) (case py_int py v of Some i \<Rightarrow> VInt i | None \<Rightarrow> VStr v)]
          (zipmap_entries py k (skip buff5 free)))))))"
  by pat_completeness auto
termination
  by (relation "measure (\<lambda>(py, k, buff). length buff)")
    (auto dest!: read_zipmap_next_length_length read_unsigned_char_length
      simp: read_def skip_def)

declare zipmap_entries.simps [simp del]

definition read_zipmap :: "pylib \<Rightarrow> parser \<Rightarrow> stream \<Rightarrow> stream run" where
  "read_zipmap py self f =
     (case read_string f of Inl e \<Rightarrow> ([], Inl e)
      | Inr (raw_string, f1) \<Rightarrow>
     (case bytesio raw_string of Inl e \<Rightarrow> ([], Inl e)
      | Inr buff \<Rightarrow>
     (case read_unsigned_char buff of Inl e \<Rightarrow> ([], Inl e)
      | Inr (num_entries, buff1) \<Rightarrow>
     (case py_len raw_string of Inl e \<Rightarrow> ([], Inl e)
      | Inr sizeof_value \<Rightarrow>
          emit [Start_hash (p_key self) num_entries (p_expiry self) (''zipmap'', Some sizeof_value)]
            (then_end_at (End_hash (p_key self)) f1 (zipmap_entries py (p_key self) buff1))))))"

subsection \<open>Objects\<close>

fun read_list_items :: "val \<Rightarrow> nat \<Rightarrow> stream \<Rightarrow> stream run" where
  "read_list_items k 0 f = ([], Inr f)"
| "read_list_items k (Suc n) f =
     (case read_string f of Inl e \<Rightarrow> ([], Inl e)
      | Inr (v, f1) \<Rightarrow> emit [Rpush k v] (read_list_items k n f1))"

fun read_set_items :: "val \<Rightarrow> nat \<Rightarrow> stream \<Rightarrow> stream run" where
  "read_set_items k 0 f = ([], Inr f)"
| "read_set_items k (Suc n) f =
     (case read_string f of Inl e \<Rightarrow> ([], Inl e)
      | Inr (v, f1) \<Rightarrow> emit [Sadd k v] (read_set_items k n f1))"

fun read_zset_items :: "pylib \<Rightarrow> val \<Rightarrow> nat \<Rightarrow> stream \<Rightarrow> stream run" where
  "read_zset_items py k 0 f = ([], Inr f)"
| "read_zset_items py k (Suc n) f =
     (case read_string f of Inl e \<Rightarrow> ([], Inl e)
      | Inr (v, f1) \<Rightarrow>
     (case read_unsigned_char f1 of Inl e \<Rightarrow> ([], Inl e)
      | Inr (dbl_length, f2) \<Rightarrow>
     (case read dbl_length f2 of (sc, f3) \<Rightarrow>
     (case to_score py (VStr sc) of Inl e \<Rightarrow> ([], Inl e)
      | Inr sc' \<Rightarrow> emit [Zadd k sc' v] (read_zset_items py k n f3)))))"

fun read_hash_items :: "val \<Rightarrow> nat \<Rightarrow> stream \<Rightarrow> stream run" where
  "read_hash_items k 0 f = ([], Inr f)"
| "read_hash_items k (Suc n) f =
     (case read_string f of Inl e \<Rightarrow> ([], Inl e)
      | Inr (field, f1) \<Rightarrow>
     (case read_string f1 of Inl e \<Rightarrow> ([], Inl e)
      | Inr (v, f2) \<Rightarrow> emit [Hset k field v] (read_hash_items k n f2)))"

definition read_object :: "pylib \<Rightarrow> parser \<Rightarrow> stream \<Rightarrow> nat \<Rightarrow> stream run" where
  "read_object py self f enc_type =
     (if enc_type = REDIS_RDB_TYPE_STRING then
        (case read_string f of Inl e \<Rightarrow> ([], Inl e)
         | Inr (v, f1) \<Rightarrow>
             ([Set_value (p_key self) v (p_expiry self) (''string'', None)], Inr f1))
      else if enc_type = REDIS_RDB_TYPE_LIST then
        (case read_length f of Inl e \<Rightarrow> ([], Inl e)
         | Inr (len, f1) \<Rightarrow>
             emit [Start_list (p_key self) len (p_expiry self) (''linkedlist'', None)]
               (then_end (End_list (p_key self)) (read_list_items (p_key self) len f1)))
      else if enc_type = REDIS_RDB_TYPE_SET then
        (case read_length f of Inl e \<Rightarrow> ([], Inl e)
         | Inr (len, f1) \<Rightarrow>
             emit [Start_set (p_key self) len (p_expiry self) (''hashtable'', None)]
               (then_end (End_set (p_key self)) (read_set_items (p_key self) len f1)))
      else if enc_type = REDIS_RDB_TYPE_ZSET then
        (case read_length f of Inl e \<Rightarrow> ([], Inl e)
         | Inr (len, f1) \<Rightarrow>
             emit [Start_sorted_set (p_key self) len (p_expiry self) (''skiplist'', None)]
               (then_end (End_sorted_set (p_key self)) (read_zset_items py (p_key self) len f1)))
      else if enc_type = REDIS_RDB_TYPE_HASH then
        (case read_length f of Inl e \<Rightarrow> ([], Inl e)
         | Inr (len, f1) \<Rightarrow>
             emit [Start_hash (p_key self) len (p_expiry self) (''hashtable'', None)]
               (then_end (End_hash (p_key self)) (read_hash_items (p_key self) len f1)))
      else if enc_type = REDIS_RDB_TYPE_HASH_ZIPMAP then read_zipmap py self f
      else if enc_type = REDIS_RDB_TYPE_LIST_ZIPLIST then read_ziplist self f
      else if enc_type = REDIS_RDB_TYPE_SET_INTSET then read_intset self f
      else if enc_type = REDIS_RDB_TYPE_ZSET_ZIPLIST then read_zset_from_ziplist py self f
      else if enc_type = REDIS_RDB_TYPE_HASH_ZIPLIST then read_hash_from_ziplist self f
      else ([], Inl (Raised ''read_object'')))"

fun skip_strings :: "nat \<Rightarrow> stream \<Rightarrow> error + stream" where
  "skip_strings 0 f = Inr f"
| "skip_strings (Suc n) f =
     (case skip_string f of Inl e \<Rightarrow> Inl e | Inr f1 \<Rightarrow> skip_strings n f1)"

definition skip_object :: "stream \<Rightarrow> nat \<Rightarrow> error + stream" where
  "skip_object f enc_type =
     (case (if enc_type = REDIS_RDB_TYPE_STRING then Inr (1, f)
            else if enc_type = REDIS_RDB_TYPE_LIST then read_length f
            else if enc_type = REDIS_RDB_TYPE_SET then read_length f
            else if enc_type = REDIS_RDB_TYPE_ZSET then
              (case read_length f of Inl e \<Rightarrow> Inl e | Inr (len, f1) \<Rightarrow> Inr (len * 2, f1))
            else if enc_type = REDIS_RDB_TYPE_HASH then
              (case read_length f of Inl e \<Rightarrow> Inl e | Inr (len, f1) \<Rightarrow> Inr (len * 2, f1))
            else if enc_type = REDIS_RDB_TYPE_HASH_ZIPMAP then Inr (1, f)
            else if enc_type = REDIS_RDB_TYPE_LIST_ZIPLIST then Inr (1, f)
            else if enc_type = REDIS_RDB_TYPE_SET_INTSET then Inr (1, f)
            else if enc_type = REDIS_RDB_TYPE_ZSET_ZIPLIST then Inr (1, f)
            else if enc_type = REDIS_RDB_TYPE_HASH_ZIPLIST then Inr (1, f)
            else Inl (Raised ''read_object'')) of Inl e \<Rightarrow> Inl e
      | Inr (n, f1) \<Rightarrow> skip_strings n f1)"

definition skip_key_and_object :: "stream \<Rightarrow> nat \<Rightarrow> error + stream" where
  "skip_key_and_object f data_type =
     (case skip_string f of Inl e \<Rightarrow> Inl e | Inr f1 \<Rightarrow> skip_object f1 data_type)"

lemma fst_map_run [simp]: "fst (map_run g r) = fst r"
  by (simp add: map_run_def)

lemma snd_map_run_Inr: "snd (map_run g r) = Inr y \<Longrightarrow> \<exists>x. snd r = Inr x \<and> y = g x"
  by (auto simp: map_run_def split: sum.splits)

lemma snd_emit [simp]: "snd (emit evs r) = snd r"
  by (simp add: emit_def)

lemma fst_emit [simp]: "fst (emit evs r) = evs @ fst r"
  by (simp add: emit_def)

lemma snd_then_end [simp]: "snd (then_end ev r) = snd r"
  by (auto simp: then_end_def split: prod.splits sum.splits)

lemma snd_then_end_at:
  "snd (then_end_at ev f1 r) = Inr f' \<Longrightarrow> f' = f1"
  by (auto simp: then_end_at_def split: prod.splits sum.splits)

lemma snd_ziplist_end:
  "snd (ziplist_end name ev f1 r) = Inr f' \<Longrightarrow> f' = f1"
  by (auto simp: ziplist_end_def split: prod.splits sum.splits if_splits)

lemma read_list_items_length:
  "snd (read_list_items k n f) = Inr f' \<Longrightarrow> length f' \<le> length f"
  by (induction n arbitrary: f) (fastforce dest: read_string_length split: sum.splits)+

lemma read_set_items_length:
  "snd (read_set_items k n f) = Inr f' \<Longrightarrow> length f' \<le> length f"
  by (induction n arbitrary: f) (fastforce dest: read_string_length split: sum.splits)+

lemma read_hash_items_length:
  "snd (read_hash_items k n f) = Inr f' \<Longrightarrow> length f' \<le> length f"
  by (induction n arbitrary: f) (fastforce dest: read_string_length split: sum.splits)+

lemma read_zset_items_length:
  "snd (read_zset_items py k n f) = Inr f' \<Longrightarrow> length f' \<le> length f"
proof (induction n arbitrary: f)
  case 0
  then show ?case by simp
next
  case (Suc n)
  then show ?case
    by (fastforce simp: read_def dest: read_string_length read_unsigned_char_length
        split: sum.splits prod.splits)
qed

lemma packed_length:
  "snd (read_zipmap py self f) = Inr f' \<Longrightarrow> length f' \<le> length f"
  "snd (read_ziplist self f) = Inr f' \<Longrightarrow> length f' \<le> length f"
  "snd (read_intset self f) = Inr f' \<Longrightarrow> length f' \<le> length f"
  "snd (read_zset_from_ziplist py self f) = Inr f' \<Longrightarrow> length f' \<le> length f"
  "snd (read_hash_from_ziplist self f) = Inr f' \<Longrightarrow> length f' \<le> length f"
  by (fastforce simp: read_zipmap_def read_ziplist_def read_intset_def read_zset_from_ziplist_def
      read_hash_from_ziplist_def Let_def
      dest: read_string_length snd_ziplist_end snd_then_end_at split: sum.splits if_splits)+

lemmas type_defs =
  REDIS_RDB_TYPE_STRING_def REDIS_RDB_TYPE_LIST_def REDIS_RDB_TYPE_SET_def
  REDIS_RDB_TYPE_ZSET_def REDIS_RDB_TYPE_HASH_def REDIS_RDB_TYPE_HASH_ZIPMAP_def
  REDIS_RDB_TYPE_LIST_ZIPLIST_def REDIS_RDB_TYPE_SET_INTSET_def
  REDIS_RDB_TYPE_ZSET_ZIPLIST_def REDIS_RDB_TYPE_HASH_ZIPLIST_def

lemma tag_cases:
  fixes t :: nat
  obtains "t = 0" | "t = 1" | "t = 2" | "t = 3" | "t = 4" | "t = 9" | "t = 10" | "t = 11"
    | "t = 12" | "t = 13" | "t \<notin> {0, 1, 2, 3, 4, 9, 10, 11, 12, 13}"
  by auto

lemma read_object_length:
  assumes "snd (read_object py self f enc_type) = Inr f'"
  shows "length f' \<le> length f"
proof (cases enc_type rule: tag_cases)
  case 1
  with assms show ?thesis
    by (auto simp: read_object_def type_defs dest: read_string_length split: sum.splits)
next
  case 2
  with assms show ?thesis
    by (fastforce simp: read_object_def type_defs dest: read_length_length read_list_items_length
        split: sum.splits)
next
  case 3
  with assms show ?thesis
    by (fastforce simp: read_object_def type_defs dest: read_length_length read_set_items_length
        split: sum.splits)
next
  case 4
  with assms show ?thesis
    by (fastforce simp: read_object_def type_defs dest: read_length_length read_zset_items_length
        split: sum.splits)
next
  case 5
  with assms show ?thesis
    by (fastforce simp: read_object_def type_defs dest: read_length_length read_hash_items_length
        split: sum.splits)
next
  case 6
  with assms show ?thesis by (simp add: read_object_def type_defs packed_length)
next
  case 7
  with assms show ?thesis by (simp add: read_object_def type_defs packed_length)
next
  case 8
  with assms show ?thesis by (simp add: read_object_def type_defs packed_length)
next
  case 9
  with assms show ?thesis by (simp add: read_object_def type_defs packed_length)
next
  case 10
  with assms show ?thesis by (simp add: read_object_def type_defs packed_length)
next
  case 11
  with assms show ?thesis by (simp add: read_object_def type_defs)
qed

lemma read_object_length':
  "read_object py self f enc_type = (evs, Inr f') \<Longrightarrow> length f' \<le> length f"
  using read_object_length [of py self f enc_type f'] by simp

lemma skip_strings_length: "skip_strings n f = Inr f' \<Longrightarrow> length f' \<le> length f"
  by (induction n arbitrary: f) (fastforce dest: skip_string_length split: sum.splits)+

lemma skip_object_length: "skip_object f enc_type = Inr f' \<Longrightarrow> length f' \<le> length f"
  unfolding skip_object_def
  by (fastforce dest: skip_strings_length read_length_length split: sum.splits if_splits)

lemma skip_key_and_object_length:
  "skip_key_and_object f data_type = Inr f' \<Longrightarrow> length f' \<le> length f"
  unfolding skip_key_and_object_def
  by (fastforce dest: skip_object_length skip_string_length split: sum.splits)

subsection \<open>Top-level driver\<close>

definition to_datetime :: "pylib \<Rightarrow> nat \<Rightarrow> error + nat" where
  "to_datetime py usecs_since_epoch =
     (let seconds_since_epoch = usecs_since_epoch div 1000000;
          useconds = usecs_since_epoch mod 1000000
      in if py_utcfromtimestamp py seconds_since_epoch
         then Inr (seconds_since_epoch * 1000000 + useconds) else Inl ValueError)"

text \<open>
  One iteration of the \<open>while True\<close> loop of \<open>parse\<close>, from \<open>self._expiry = None\<close> to
  the \<open>continue\<close>, the \<open>break\<close> or the end of the body. The loop variables are
  \<open>is_first_database\<close> and \<open>db_number\<close>. The body is written in parts:
  \<open>read_expiry\<close> is its \<open>if\<close>/\<open>elif\<close> on the two expiry opcodes, \<open>read_key_value\<close>
  its last \<open>if\<close>/\<open>else\<close> on the filter, \<open>parse_opcode\<close> all that follows
  \<open>read_expiry\<close>, and \<open>parse_step\<close> the whole.
\<close>

definition read_expiry ::
  "pylib \<Rightarrow> parser \<Rightarrow> nat \<Rightarrow> stream \<Rightarrow> error + (parser \<times> nat \<times> stream)" where
  "read_expiry py self data_type f1 =
     (if data_type = REDIS_RDB_OPCODE_EXPIRETIME_MS then
        (case read_unsigned_long f1 of Inl e \<Rightarrow> Inl e
         | Inr (ms, f2) \<Rightarrow>
        (case to_datetime py (ms * 1000) of Inl e \<Rightarrow> Inl e
         | Inr dt \<Rightarrow>
        (case read_unsigned_char f2 of Inl e \<Rightarrow> Inl e
         | Inr (data_type, f3) \<Rightarrow> Inr (self\<lparr>p_expiry := Some dt\<rparr>, data_type, f3))))
      else if data_type = REDIS_RDB_OPCODE_EXPIRETIME then
        (case read_unsigned_int f1 of Inl e \<Rightarrow> Inl e
         | Inr (secs, f2) \<Rightarrow>
        (case to_datetime py (secs * 1000000) of Inl e \<Rightarrow> Inl e
         | Inr dt \<Rightarrow>
        (case read_unsigned_char f2 of Inl e \<Rightarrow> Inl e
         | Inr (data_type, f3) \<Rightarrow> Inr (self\<lparr>p_expiry := Some dt\<rparr>, data_type, f3))))
      else Inr (self, data_type, f1))"

definition read_key_value ::
  "pylib \<Rightarrow> parser \<Rightarrow> nat \<Rightarrow> nat \<Rightarrow> stream \<Rightarrow> (parser \<times> stream) run" where
  "read_key_value py self db_number data_type f2 =
     (case matches_filter self db_number VNone None of Inl e \<Rightarrow> ([], Inl e)
      | Inr True \<Rightarrow>
          (case read_string f2 of Inl e \<Rightarrow> ([], Inl e)
           | Inr (k, f3) \<Rightarrow>
               (let self = self\<lparr>p_key := k\<rparr> in
                case matches_filter self db_number (p_key self) (Some data_type) of
                  Inl e \<Rightarrow> ([], Inl e)
                | Inr True \<Rightarrow> map_run (Pair self) (read_object py self f3 data_type)
                | Inr False \<Rightarrow>
                    (case skip_object f3 data_type of Inl e \<Rightarrow> ([], Inl e)
                     | Inr f4 \<Rightarrow> ([], Inr (self, f4)))))
      | Inr False \<Rightarrow>
          (case skip_key_and_object f2 data_type of Inl e \<Rightarrow> ([], Inl e)
           | Inr f3 \<Rightarrow> ([], Inr (self, f3))))"

datatype step = Continue parser bool nat stream | Break parser stream

definition parse_opcode ::
  "pylib \<Rightarrow> parser \<Rightarrow> bool \<Rightarrow> nat \<Rightarrow> nat \<Rightarrow> stream \<Rightarrow> step run" where
  "parse_opcode py self is_first_database db_number data_type f2 =
     (if data_type = REDIS_RDB_OPCODE_SELECTDB then
        emit (if \<not> is_first_database then [End_database db_number] else [])
          (case read_length f2 of Inl e \<Rightarrow> ([], Inl e)
           | Inr (db_number, f3) \<Rightarrow>
               ([Start_database db_number], Inr (Continue self False db_number f3)))
      else if data_type = REDIS_RDB_OPCODE_EOF then
        ([End_database db_number, End_rdb], Inr (Break self f2))
      else
        map_run (\<lambda>(self, f3). Continue self is_first_database db_number f3)
          (read_key_value py self db_number data_type f2))"

definition parse_step :: "pylib \<Rightarrow> parser \<Rightarrow> bool \<Rightarrow> nat \<Rightarrow> stream \<Rightarrow> step run" where
  "parse_step py self is_first_database db_number f =
     (let self = self\<lparr>p_expiry := None\<rparr> in
      case read_unsigned_char f of Inl e \<Rightarrow> ([], Inl e)
      | Inr (data_type, f1) \<Rightarrow>
     (case read_expiry py self data_type f1 of Inl e \<Rightarrow> ([], Inl e)
      | Inr (self, data_type, f2) \<Rightarrow>
          parse_opcode py self is_first_database db_number data_type f2))"

lemma read_expiry_length:
  "read_expiry py self data_type f1 = Inr (self', data_type', f2) \<Longrightarrow> length f2 \<le> length f1"
  unfolding read_expiry_def
  by (auto dest!: read_fixed_length read_unsigned_char_length split: if_splits sum.splits)

lemma read_key_value_length:
  assumes "snd (read_key_value py self db data_type f2) = Inr (self', f3)"
  shows "length f3 \<le> length f2"
proof (cases "matches_filter self db VNone None")
  case (Inl e)
  with assms show ?thesis by (simp add: read_key_value_def)
next
  case (Inr b)
  show ?thesis
  proof (cases b)
    case False
    with assms Inr show ?thesis
      by (auto simp: read_key_value_def dest: skip_key_and_object_length split: sum.splits)
  next
    case True
    then obtain k f3' where r: "read_string f2 = Inr (k, f3')"
      using assms Inr by (auto simp: read_key_value_def split: sum.splits)
    have l: "length f3' < length f2" using r by (rule read_string_length)
    have "length f3 \<le> length f3'"
      using assms Inr True r
      by (auto simp: read_key_value_def Let_def dest!: snd_map_run_Inr
          dest: read_object_length skip_object_length split: sum.splits bool.splits)
    with l show ?thesis by simp
  qed
qed

lemma read_key_value_length':
  "read_key_value py self db data_type f2 = (evs, Inr (self', f3)) \<Longrightarrow> length f3 \<le> length f2"
  using read_key_value_length [of py self db data_type f2 self' f3] by simp

lemma parse_opcode_length:
  assumes "snd (parse_opcode py self is_first db data_type f2) = Inr (Continue self' is_first' db' f')"
  shows "length f' \<le> length f2"
  using assms unfolding parse_opcode_def
  by (auto dest!: snd_map_run_Inr dest: read_length_length read_key_value_length
      split: if_splits sum.splits)

lemma parse_step_length:
  assumes "snd (parse_step py self is_first db f) = Inr (Continue self' is_first' db' f')"
  shows "length f' < length f"
proof -
  obtain data_type f1 where r1: "read_unsigned_char f = Inr (data_type, f1)"
    using assms by (auto simp: parse_step_def Let_def split: sum.splits)
  have l1: "length f1 < length f" using r1 by (rule read_unsigned_char_length)
  obtain s2 dt2 f2 where r2: "read_expiry py (self\<lparr>p_expiry := None\<rparr>) data_type f1 = Inr (s2, dt2, f2)"
    using assms r1 by (auto simp: parse_step_def Let_def split: sum.splits)
  have l2: "length f2 \<le> length f1" using r2 by (rule read_expiry_length)
  have "length f' \<le> length f2"
    using assms r1 r2 by (auto simp: parse_step_def Let_def dest: parse_opcode_length)
  with l1 l2 show ?thesis by simp
qed

lemma parse_step_length':
  "(evs, Inr (Continue self' is_first' db' f')) = parse_step py self is_first db f
     \<Longrightarrow> length f' < length f"
  using parse_step_length [of py self is_first db f self' is_first' db' f']
  by (cases "parse_step py self is_first db f") simp

function parse_loop :: "pylib \<Rightarrow> parser \<Rightarrow> bool \<Rightarrow> nat \<Rightarrow> stream \<Rightarrow> (parser \<times> stream) run" where
  "parse_loop py self is_first_database db_number f =
     (case parse_step py self is_first_database db_number f of
        (evs, Inl e) \<Rightarrow> (evs, Inl e)
      | (evs, Inr (Break self' f')) \<Rightarrow> (evs, Inr (self', f'))
      | (evs, Inr (Continue self' is_first_database' db_number' f')) \<Rightarrow>
          emit evs (parse_loop py self' is_first_database' db_number' f'))"
  by pat_completeness auto
termination
  by (relation "measure (\<lambda>(py, self, is_first, db, f). length f)")
    (auto dest: parse_step_length')

declare parse_loop.simps [simp del]

text \<open>
  \<open>__init__\<close> and \<open>parse\<close>. The file is the list of its bytes. \<open>parse\<close> returns the parser
  and the bytes left unread after the end-of-file opcode.
\<close>

definition new_parser :: "raw_filters option \<Rightarrow> error + parser" where
  "new_parser fs =
     (case init_filter fs of Inl e \<Rightarrow> Inl e
      | Inr flt \<Rightarrow> Inr \<lparr>p_key = VNone, p_expiry = None, p_filters = flt\<rparr>)"

definition verify_magic_string :: "byte list \<Rightarrow> error + unit" where
  "verify_magic_string magic_string =
     (if magic_string \<noteq> [0x52, 0x45, 0x44, 0x49, 0x53]
      then Inl (Raised ''verify_magic_string'') else Inr ())"

definition verify_version :: "pylib \<Rightarrow> byte list \<Rightarrow> error + unit" where
  "verify_version py version_str =
     (case py_int py version_str of None \<Rightarrow> Inl ValueError
      | Some version \<Rightarrow>
          if version < 1 \<or> version > 6 then Inl (Raised ''verify_version'') else Inr ())"

definition parse :: "pylib \<Rightarrow> parser \<Rightarrow> stream \<Rightarrow> (parser \<times> stream) run" where
  "parse py self f =
     (case read 5 f of (magic_string, f1) \<Rightarrow>
     (case verify_magic_string magic_string of Inl e \<Rightarrow> ([], Inl e)
      | Inr u \<Rightarrow>
     (case read 4 f1 of (version_str, f2) \<Rightarrow>
     (case verify_version py version_str of Inl e \<Rightarrow> ([], Inl e)
      | Inr u \<Rightarrow> emit [Start_rdb] (parse_loop py self True 0 f2)))))"

subsection \<open>A sample of the library\<close>

text \<open>
  For runs on concrete files: an instance of the library parameters that agrees with
  CPython on the inputs used below. \<open>int()\<close> and \<open>float()\<close> accept every non-empty string
  of ASCII digits (and more, which this instance rejects); \<open>utcfromtimestamp\<close> accepts
  every time up to the end of the year 9999.
\<close>

fun decimal :: "int \<Rightarrow> byte list \<Rightarrow> int option" where
  "decimal acc [] = Some acc"
| "decimal acc (c # cs) =
     (if 0x30 \<le> c \<and> c \<le> 0x39 then decimal (10 * acc + (uint c - 48)) cs else None)"

definition py_sample :: pylib where
  "py_sample =
     \<lparr>py_int = (\<lambda>s. if s = [] then None else decimal 0 s),
      py_float = (\<lambda>s. s \<noteq> [] \<and> decimal 0 s \<noteq> None),
      py_utcfromtimestamp = (\<lambda>n. n \<le> 253402300799)\<rparr>"

text \<open>The parser made by \<open>RdbParser(callback)\<close>, without filters.\<close>

definition plain_parser :: parser where
  "plain_parser =
     \<lparr>p_key = VNone, p_expiry = None,
      p_filters = \<lparr>f_dbs = None, f_keys = Star Dot,
                    f_types = [''set'', ''hash'', ''sortedset'', ''string'', ''list'']\<rparr>\<rparr>"

subsection \<open>The expiry carried by an event\<close>

text \<open>
  \<open>event_expiry e\<close> is the \<open>expiry\<close> argument of a \<open>set\<close> or \<open>start_...\<close> callback,
  and \<open>None\<close> for a callback that has none. \<open>expiry_is x evs\<close>: every event of \<open>evs\<close>
  that has an \<open>expiry\<close> argument has \<open>x\<close> there.
\<close>

fun event_expiry :: "event \<Rightarrow> expiry option" where
  "event_expiry (Set_value k v x i) = Some x"
| "event_expiry (Start_hash k n x i) = Some x"
| "event_expiry (Start_set k n x i) = Some x"
| "event_expiry (Start_list k n x i) = Some x"
| "event_expiry (Start_sorted_set k n x i) = Some x"
| "event_expiry e = None"

definition no_expiry :: "event list \<Rightarrow> bool" where
  "no_expiry evs = (\<forall>e \<in> set evs. event_expiry e = None)"

definition expiry_is :: "expiry \<Rightarrow> event list \<Rightarrow> bool" where
  "expiry_is x evs = (\<forall>e \<in> set evs. event_expiry e = None \<or> event_expiry e = Some x)"

subsection \<open>Length prefix encoder\<close>

text \<open>
  The encoder is not part of the parser. It follows the specification's description of the
  minimum-width class: one byte below 64, two bytes below 16384, otherwise a byte with top
  bits \<open>10\<close> (its low six bits \<open>pad\<close> are ignored by the reader) and the value in four
  bytes, most significant first.
\<close>

definition encode_length :: "nat \<Rightarrow> nat \<Rightarrow> byte list" where
  "encode_length pad v =
     (if v < 64 then [of_nat v]
      else if v < 16384 then [of_nat (64 + v div 256), of_nat (v mod 256)]
      else [of_nat (128 + pad mod 64), of_nat (v div 2 ^ 24 mod 256), of_nat (v div 2 ^ 16 mod 256),
            of_nat (v div 2 ^ 8 mod 256), of_nat (v mod 256)])"

section \<open>Verification\<close>

subsection \<open>Bit arithmetic on natural numbers\<close>

lemma and_push_mask:
  "(x::nat) AND push_bit k (mask m) = push_bit k (take_bit m (drop_bit k x))"
  by (rule bit_eqI) (auto simp: bit_simps)

lemma unat_byte: "n < 256 \<Longrightarrow> unat (of_nat n :: byte) = n"
  by (simp add: unat_of_nat)

lemma unat_byte_less: "unat (b :: byte) < 256"
  using unsigned_less [of b] by simp

lemma and_3F: "(b::nat) AND 0x3F = b mod 64"
  using take_bit_eq_mask [of 6 b] by (simp add: take_bit_eq_mod mask_eq_exp_minus_1)

lemma and_1F: "(b::nat) AND 0x1F = b mod 32"
  using take_bit_eq_mask [of 5 b] by (simp add: take_bit_eq_mod mask_eq_exp_minus_1)

lemma and_C0: "drop_bit 6 ((b::nat) AND 0xC0) = b div 64 mod 4"
  using and_push_mask [of b 6 2]
  by (simp add: take_bit_eq_mod drop_bit_eq_div mask_eq_exp_minus_1 push_bit_eq_mult)

lemma and_ff: "(b::nat) AND 0xff = take_bit 8 b"
  using take_bit_eq_mask [of 8 b] by (simp add: mask_eq_exp_minus_1)

lemma and_ff00: "(b::nat) AND 0xff00 = push_bit 8 (take_bit 8 (drop_bit 8 b))"
  using and_push_mask [of b 8 8]
  by (simp add: mask_eq_exp_minus_1 push_bit_eq_mult)

lemma and_ff0000: "(b::nat) AND 0xff0000 = push_bit 16 (take_bit 8 (drop_bit 16 b))"
  using and_push_mask [of b 16 8]
  by (simp add: mask_eq_exp_minus_1 push_bit_eq_mult)

lemma and_ff000000: "(b::nat) AND 0xff000000 = push_bit 24 (take_bit 8 (drop_bit 24 b))"
  using and_push_mask [of b 24 8]
  by (simp add: mask_eq_exp_minus_1 push_bit_eq_mult)

lemma or_add:
  "b < 2 ^ k \<Longrightarrow> (2 ^ k * a) OR b = 2 ^ k * a + (b::nat)"
proof -
  assume "b < 2 ^ k"
  then have b: "take_bit k b = b" by (simp add: take_bit_nat_eq_self)
  have "push_bit k a + take_bit k b = push_bit k a OR take_bit k b"
    by (rule disjunctive_add) (auto simp: bit_simps)
  then show ?thesis by (simp add: b push_bit_eq_mult mult.commute)
qed

lemma swap32:
  assumes "v < 2 ^ 32"
  shows "(((0 OR push_bit 24 (v AND 0xff)) OR drop_bit 24 (v AND 0xff000000))
           OR push_bit 8 (v AND 0xff00)) OR drop_bit 8 (v AND 0xff0000)
         = 2 ^ 24 * (v mod 256) + (2 ^ 16 * (v div 2 ^ 8 mod 256) + (2 ^ 8 * (v div 2 ^ 16 mod 256)
           + (v::nat) div 2 ^ 24))"
proof -
  let ?A = "v mod 256" and ?B = "v div 2 ^ 8 mod 256" and ?C = "v div 2 ^ 16 mod 256" and ?D = "v div 2 ^ 24"
  have d: "?D < 2 ^ 8" using assms by (simp add: less_mult_imp_div_less)
  have 1: "drop_bit 24 (v AND 0xff000000) = ?D"
    unfolding and_ff000000 using d by (simp add: drop_bit_eq_div take_bit_eq_mod push_bit_eq_mult)
  have 2: "push_bit 24 (v AND 0xff) = 2 ^ 24 * ?A"
    unfolding and_ff by (simp add: push_bit_eq_mult take_bit_eq_mod)
  have 3: "push_bit 8 (v AND 0xff00) = 2 ^ 16 * ?B"
    unfolding and_ff00 by (simp add: push_bit_eq_mult take_bit_eq_mod drop_bit_eq_div)
  have 4: "drop_bit 8 (v AND 0xff0000) = 2 ^ 8 * ?C"
    unfolding and_ff0000 by (simp add: push_bit_eq_mult take_bit_eq_mod drop_bit_eq_div)
  have r: "(((0 OR 2 ^ 24 * ?A) OR ?D) OR 2 ^ 16 * ?B) OR 2 ^ 8 * ?C
      = 2 ^ 24 * ?A OR (2 ^ 16 * ?B OR (2 ^ 8 * ?C OR ?D))"
    by (simp only: or.assoc or.commute or.left_commute or.left_neutral)
  have f: "2 ^ 8 * ?C OR ?D = 2 ^ 8 * ?C + ?D"
    using d by (rule or_add)
  have "2 ^ 8 * ?C + ?D < 2 ^ 16" using d by simp
  then have g: "2 ^ 16 * ?B OR (2 ^ 8 * ?C + ?D) = 2 ^ 16 * ?B + (2 ^ 8 * ?C + ?D)"
    by (rule or_add)
  have "2 ^ 16 * ?B + (2 ^ 8 * ?C + ?D) < 2 ^ 24" using d by simp
  then have h: "2 ^ 24 * ?A OR (2 ^ 16 * ?B + (2 ^ 8 * ?C + ?D)) = 2 ^ 24 * ?A + (2 ^ 16 * ?B + (2 ^ 8 * ?C + ?D))"
    by (rule or_add)
  show ?thesis
    unfolding 1 2 3 4 r f g h by (rule refl)
qed

lemma div_mod_256:
  "a < 256 \<Longrightarrow> (a + 256 * w) mod 256 = (a::nat)"
  "a < 256 \<Longrightarrow> (a + 256 * w) div 256 = w"
  by simp_all

lemma le_bytes4:
  fixes b0 b1 b2 b3 :: byte
  defines "v \<equiv> unat b0 + 256 * (unat b1 + 256 * (unat b2 + 256 * unat b3))"
  shows "v mod 256 = unat b0" "v div 2 ^ 8 mod 256 = unat b1" "v div 2 ^ 16 mod 256 = unat b2"
    "v div 2 ^ 24 = unat b3" "v < 2 ^ 32"
proof -
  note l = unat_byte_less [of b0] unat_byte_less [of b1] unat_byte_less [of b2] unat_byte_less [of b3]
  have d1: "v div 256 = unat b1 + 256 * (unat b2 + 256 * unat b3)"
    unfolding v_def by (rule div_mod_256 (2) [OF l(1)])
  have d2: "v div 256 div 256 = unat b2 + 256 * unat b3"
    unfolding d1 by (rule div_mod_256 (2) [OF l(2)])
  have d3: "v div 256 div 256 div 256 = unat b3"
    unfolding d2 using l(3) by simp
  have e2: "v div 2 ^ 16 = v div 256 div 256" by (simp add: div_mult2_eq)
  have e3: "v div 2 ^ 24 = v div 256 div 256 div 256" by (simp add: div_mult2_eq)
  show "v mod 256 = unat b0" unfolding v_def by (rule div_mod_256 (1) [OF l(1)])
  have "v div 256 mod 256 = unat b1" unfolding d1 by (rule div_mod_256 (1) [OF l(2)])
  then show "v div 2 ^ 8 mod 256 = unat b1" by simp
  have "v div 256 div 256 mod 256 = unat b2" unfolding d2 using l(3) by simp
  then show "v div 2 ^ 16 mod 256 = unat b2" unfolding e2 .
  show "v div 2 ^ 24 = unat b3" unfolding e3 d3 ..
  show "v < 2 ^ 32" unfolding v_def using l by simp
qed

lemma ntohl_cons4:
  "ntohl (b0 # b1 # b2 # b3 # rest) = Inr (be_nat 0 [b0, b1, b2, b3], rest)"
proof -
  let ?v = "unat b0 + 256 * (unat b1 + 256 * (unat b2 + 256 * unat b3))"
  have r: "read_unsigned_int (b0 # b1 # b2 # b3 # rest) = Inr (?v, rest)"
    by (simp add: read_unsigned_int_def unpack_def read_def)
  note a = le_bytes4 [of b0 b1 b2 b3]
  show ?thesis
    unfolding ntohl_def r Let_def sum.case prod.case swap32 [OF a(5)] a(1-4)
    by simp
qed

lemma or_byte:
  "push_bit 8 (x::nat) OR unat (b :: byte) = 256 * x + unat b"
  using or_add [of "unat b" 8 x] unat_byte_less [of b] by (simp add: push_bit_eq_mult mult.commute)

lemma rlwe_cons:
  "read_length_with_encoding (b # f) =
     (if unat b div 64 = 3 then Inr ((unat b mod 64, True), f)
      else if unat b div 64 = 0 then Inr ((unat b mod 64, False), f)
      else if unat b div 64 = 1 then
        (case f of [] \<Rightarrow> Inl StructError
         | b1 # f2 \<Rightarrow> Inr ((256 * (unat b mod 64) + unat b1, False), f2))
      else (case ntohl f of Inl e \<Rightarrow> Inl e | Inr (len, f2) \<Rightarrow> Inr ((len, False), f2)))"
proof -
  have "unat b div 64 mod 4 = unat b div 64" using unat_byte_less [of b] by simp
  then have e: "drop_bit 6 (unat b AND 0xC0) = unat b div 64" using and_C0 [of "unat b"] by simp
  have r: "read_unsigned_char (b # f) = Inr (unat b, f)"
    by (simp add: read_unsigned_char_def unpack_def read_def)
  show ?thesis
    unfolding read_length_with_encoding_def r sum.case prod.case Let_def e and_3F
    by (cases f) (simp_all add: read_unsigned_char_def unpack_def read_def or_byte
        REDIS_RDB_ENCVAL_def REDIS_RDB_6BITLEN_def REDIS_RDB_14BITLEN_def)
qed

lemma be_nat_bytes:
  assumes "A < 256" "B < 256" "C < 256" "D < 256"
  shows "be_nat 0 [of_nat A, of_nat B, of_nat C, of_nat D :: byte]
           = 256 * (256 * (256 * A + B) + C) + D"
  using assms by (simp add: unat_byte)

lemma be_nat_split:
  assumes "v < 2 ^ 32"
  shows "be_nat 0 [of_nat (v div 2 ^ 24 mod 256), of_nat (v div 2 ^ 16 mod 256),
            of_nat (v div 2 ^ 8 mod 256), of_nat (v mod 256) :: byte] = v"
proof -
  have "v div 2 ^ 24 < 256" using assms by (simp add: less_mult_imp_div_less)
  then have m: "v div 2 ^ 24 mod 256 = v div 2 ^ 24" by simp
  have e1: "v div 2 ^ 8 = v div 256" by simp
  have e2: "v div 2 ^ 16 = v div 256 div 256" by (simp add: div_mult2_eq)
  have e3: "v div 2 ^ 24 = v div 256 div 256 div 256" by (simp add: div_mult2_eq)
  have "be_nat 0 [of_nat (v div 2 ^ 24 mod 256), of_nat (v div 2 ^ 16 mod 256),
            of_nat (v div 2 ^ 8 mod 256), of_nat (v mod 256) :: byte]
      = 256 * (256 * (256 * (v div 2 ^ 24 mod 256) + v div 2 ^ 16 mod 256) + v div 2 ^ 8 mod 256)
          + v mod 256"
    by (rule be_nat_bytes) simp_all
  also have "\<dots> = 256 * (256 * (256 * (v div 256 div 256 div 256) + v div 256 div 256 mod 256)
          + v div 256 mod 256) + v mod 256"
    unfolding m unfolding e1 e2 e3 by (rule refl)
  also have "\<dots> = v"
    by (simp only: mult_div_mod_eq)
  finally show ?thesis .
qed

text \<open>
  Claim C5. Every value below \<open>2 ^ 32\<close>, encoded as a length prefix of the minimum-width
  class, is read back by \<open>read_length_with_encoding\<close> as that value with
  \<open>is_encoded = False\<close>, and the reader stops right after the prefix.
\<close>

theorem encode_length_roundtrip:
  assumes v: "v < 2 ^ 32"
  shows "read_length_with_encoding (encode_length pad v @ rest) = Inr ((v, False), rest)"
proof -
  consider "v < 64" | "64 \<le> v" "v < 16384" | "16384 \<le> v" by linarith
  then show ?thesis
  proof cases
    case 1
    then have "unat (of_nat v :: byte) = v" by (simp add: unat_byte)
    with 1 show ?thesis
      by (simp add: encode_length_def rlwe_cons)
  next
    case 2
    then have "v div 256 < 64" by simp
    then have a: "unat (of_nat (64 + v div 256) :: byte) = 64 + v div 256"
      using unat_byte [of "64 + v div 256"] by linarith
    have b: "unat (of_nat (v mod 256) :: byte) = v mod 256" by (simp add: unat_byte)
    have c: "(64 + v div 256) div 64 = 1" "(64 + v div 256) mod 64 = v div 256"
      using \<open>v div 256 < 64\<close> by simp_all
    have "read_length_with_encoding ([of_nat (64 + v div 256), of_nat (v mod 256)] @ rest)
        = Inr ((v, False), rest)"
      unfolding append.simps rlwe_cons a c using b by simp
    with 2 show ?thesis by (simp add: encode_length_def)
  next
    case 3
    have a: "unat (of_nat (128 + pad mod 64) :: byte) = 128 + pad mod 64"
      using unat_byte [of "128 + pad mod 64"] by simp
    have c: "(128 + pad mod 64) div 64 = 2" by simp
    have "read_length_with_encoding ([of_nat (128 + pad mod 64), of_nat (v div 2 ^ 24 mod 256),
            of_nat (v div 2 ^ 16 mod 256), of_nat (v div 2 ^ 8 mod 256), of_nat (v mod 256)] @ rest)
        = Inr ((v, False), rest)"
      unfolding append.simps rlwe_cons a c ntohl_cons4 be_nat_split [OF v] by simp
    with 3 show ?thesis by (simp add: encode_length_def)
  qed
qed

theorem encode_length_roundtrip_witness:
  "(300::nat) < 2 ^ 32 \<and> read_length_with_encoding (encode_length 0 300 @ [7]) = Inr ((300, False), [7])"
  using encode_length_roundtrip [of 300 0 "[7]"] by simp

subsection \<open>The filter\<close>

lemma matches_filter_falsy_key:
  "\<not> truthy key \<Longrightarrow>
   matches_filter self db_number key data_type = matches_filter self db_number VNone data_type"
  by (simp add: matches_filter_def truthy_def)

text \<open>
  Claim C9. When the key handed to \<open>matches_filter\<close> is the empty string, the keys axis
  is not consulted: whatever regular expression is configured, the key is accepted as soon
  as the database axis and the type axis accept.
\<close>

theorem empty_key_accepted:
  assumes "case f_dbs (p_filters self) of None \<Rightarrow> True
           | Some dbs \<Rightarrow> dbs = [] \<or> int db_number \<in> set dbs"
    and "get_logical_type data_type = Inr t"
    and "t \<in> set (f_types (p_filters self))"
  shows "matches_filter self db_number (VStr []) (Some data_type) = Inr True"
  using assms by (auto simp: matches_filter_def truthy_def split: option.splits)

theorem empty_key_accepted_witness:
  "matches_filter
     \<lparr>p_key = VStr [], p_expiry = None,
      p_filters = \<lparr>f_dbs = Some [0], f_keys = Fail, f_types = [''string'']\<rparr>\<rparr>
     0 (VStr []) (Some 0) = Inr True
   \<and> \<not> re_match Fail []"
  using empty_key_accepted [where self = "\<lparr>p_key = VStr [], p_expiry = None,
      p_filters = \<lparr>f_dbs = Some [0], f_keys = Fail, f_types = [''string'']\<rparr>\<rparr>"
      and db_number = 0 and data_type = 0 and t = "''string''"]
  by (simp add: get_logical_type_def)

text \<open>
  Claim C7, as stated: the filter accepts a non-empty key exactly when the pattern matches
  somewhere in the key. The pattern \<open>b\<close> matches inside the key \<open>ab\<close>, and the filter
  rejects that key, since \<open>match\<close> only looks for a match at the start of the key.
\<close>

theorem keys_filter_unanchored_counterexample:
  "re_search (Lit 0x62) [0x61, 0x62]
   \<and> matches_filter
       \<lparr>p_key = VStr [0x61, 0x62], p_expiry = None,
        p_filters = \<lparr>f_dbs = None, f_keys = Lit 0x62, f_types = [''string'']\<rparr>\<rparr>
       0 (VStr [0x61, 0x62]) (Some 0) = Inr False"
  by (simp add: matches_filter_def truthy_def py_str_def get_logical_type_def)

text \<open>
  Claim C7, amended. When the database axis and the type axis accept and the key is truthy,
  the filter accepts the key if and only if the pattern matches at the start of the key
  taken as a string (\<open>match\<close>: anchored at the first byte, free at the end).
\<close>

theorem keys_filter_anchored:
  assumes "case f_dbs (p_filters self) of None \<Rightarrow> True
           | Some dbs \<Rightarrow> dbs = [] \<or> int db_number \<in> set dbs"
    and "get_logical_type data_type = Inr t"
    and "t \<in> set (f_types (p_filters self))"
    and "truthy key"
  shows "matches_filter self db_number key (Some data_type)
           = Inr (re_match (f_keys (p_filters self)) (py_str key))"
  using assms by (auto simp: matches_filter_def split: option.splits)

theorem keys_filter_anchored_witness:
  "matches_filter
       \<lparr>p_key = VStr [0x62, 0x61], p_expiry = None,
        p_filters = \<lparr>f_dbs = None, f_keys = Lit 0x62, f_types = [''string'']\<rparr>\<rparr>
       0 (VStr [0x62, 0x61]) (Some 0) = Inr True"
  using keys_filter_anchored [where self = "\<lparr>p_key = VStr [0x62, 0x61], p_expiry = None,
        p_filters = \<lparr>f_dbs = None, f_keys = Lit 0x62, f_types = [''string'']\<rparr>\<rparr>"
        and db_number = 0 and data_type = 0 and t = "''string''" and key = "VStr [0x62, 0x61]"]
  by (simp add: get_logical_type_def truthy_def py_str_def)

subsection \<open>Ziplist entry headers\<close>

text \<open>
  Claim C6, as stated: among the headers \<open>0xC0..0xCF\<close> only \<open>0xC0\<close> decodes, the others
  raise. The header \<open>0xC1\<close> decodes as a signed 16-bit integer.
\<close>

theorem ziplist_header_C1_counterexample:
  "read_ziplist_entry [0x00, 0xC1, 0x2A, 0x00] = Inr (VInt 42, [])
   \<and> read_ziplist_entry [0x00, 0xC1, 0x2A, 0x00] \<noteq> Inl (Raised ''read_ziplist_entry'')"
  by (simp add: read_ziplist_entry_def read_unsigned_char_def unpack_def read_def int_val_def
      read_signed_short_def to_signed_def drop_bit_eq_div)

text \<open>
  Claim C6, amended. Every header byte from \<open>0xC0\<close> to \<open>0xCF\<close> (top four bits \<open>1100\<close>)
  decodes the next two bytes as a signed 16-bit little-endian integer; none of them raises
  the invalid-header exception.
\<close>

theorem ziplist_header_C0_CF:
  assumes "0xC0 \<le> h" "h \<le> 0xCF"
    and "prev = [p] \<and> p \<noteq> 254 \<or> prev = [254, x0, x1, x2, x3]"
  shows "read_ziplist_entry (prev @ h # b0 # b1 # rest)
           = Inr (VInt (to_signed 16 (unat b0 + 256 * unat b1)), rest)"
proof -
  have "192 \<le> unat h" "unat h \<le> 207"
    using assms by (simp_all add: word_le_nat_alt)
  then have d: "unat h div 64 = 3" "unat h div 16 = 12" by simp_all
  from assms(3) show ?thesis
  proof
    assume a: "prev = [p] \<and> p \<noteq> 254"
    then have p: "unat p \<noteq> 254" by (simp add: word_unat_eq_iff)
    show ?thesis
      using a p d
      by (simp add: read_ziplist_entry_def read_unsigned_char_def unpack_def read_def int_val_def
          read_signed_short_def drop_bit_eq_div)
  next
    assume a: "prev = [254, x0, x1, x2, x3]"
    show ?thesis
      using a d
      by (simp add: read_ziplist_entry_def read_unsigned_char_def read_unsigned_int_def unpack_def
          read_def int_val_def read_signed_short_def drop_bit_eq_div)
  qed
qed

theorem ziplist_header_C0_CF_witness:
  "read_ziplist_entry ([0x00] @ 0xCF # 0xFF # 0xFF # [0x07]) = Inr (VInt (- 1), [0x07])"
  using ziplist_header_C0_CF [where h = "0xCF" and prev = "[0x00]" and p = 0 and ?b0.0 = "0xFF"
      and ?b1.0 = "0xFF" and rest = "[0x07]"]
  by (simp add: to_signed_def)

end
